theory Spec2Isabelle
  imports Complex_Main
begin

section \<open>Data model of photomosaic.py\<close>

text \<open>
  The exceptions that the modelled functions can raise. \<open>LibraryError\<close> stands for any
  exception raised inside the numeric clustering (scipy), \<open>IOError\<close> for a file that the
  imaging library cannot open.
\<close>

datatype error =
    AssertionError
  | LibraryError
  | IndexError
  | TypeError
  | NameError
  | ZeroDivisionError
  | IOError

type_synonym rgb = "int \<times> int \<times> int"
type_synonym box = "int \<times> int \<times> int \<times> int"

text \<open>
  The imaging library (PIL), the clustering (scipy and numpy, lines 20 to 25 of the
  source) and the colour conversion (module \<open>color_spaces\<close>) are not part of the
  sources. They are parameters of the model, collected in one record; an image is a value
  of the abstract type \<open>'im\<close>. A method that changes the image in place
  (\<open>thumbnail\<close>) is a function to the new state of the image object.

  The Lab values are REAL columns of sqlite, IEEE doubles on which sqlite computes and
  compares. They are values of the abstract type \<open>'r\<close>; the subtraction, the product,
  the sum and the order that sqlite applies to them (\<open>r_sub\<close>, \<open>r_mul\<close>,
  \<open>r_add\<close>, \<open>r_le\<close>) are parameters as well, so nothing is assumed about rounding.

  \<open>find_match\<close> reads the converter through the global name \<open>rgb2lab\<close>. The
  module imports \<open>color_spaces\<close> as \<open>cs\<close> and binds no such name itself, so the
  field \<open>rgb2lab\<close> is what the name resolves to in the namespace the module runs in:
  \<open>None\<close> when it is unbound, as it is when the file is imported as it stands.
\<close>

record ('im, 'r) libs =
  im_mode :: "'im \<Rightarrow> string"
  im_size :: "'im \<Rightarrow> int \<times> int"
  thumbnail :: "'im \<Rightarrow> int \<times> int \<Rightarrow> 'im"
  crop :: "'im \<Rightarrow> box \<Rightarrow> 'im"
  resize :: "'im \<Rightarrow> int \<times> int \<Rightarrow> 'im"
  image_open :: "string \<Rightarrow> 'im option"
  cluster :: "'im \<Rightarrow> nat \<Rightarrow> rgb list option"
  rgb2lab :: "(rgb \<Rightarrow> 'r \<times> 'r \<times> 'r) option"
  r_sub :: "'r \<Rightarrow> 'r \<Rightarrow> 'r"
  r_mul :: "'r \<Rightarrow> 'r \<Rightarrow> 'r"
  r_add :: "'r \<Rightarrow> 'r \<Rightarrow> 'r"
  r_le :: "'r \<Rightarrow> 'r \<Rightarrow> bool"

text \<open>The two tables of \<open>create_tables\<close>, one record per row, in rowid order.\<close>

record image_row =
  image_id :: int
  usages :: int
  row_w :: int
  row_h :: int
  filename :: string

record 'r color_row =
  color_id :: int
  c_image_id :: int
  c_rank :: int
  c_L :: 'r
  c_a :: 'r
  c_b :: 'r
  c_red :: int
  c_green :: int
  c_blue :: int

record 'r db =
  Images :: "image_row list"
  Colors :: "'r color_row list"

text \<open>The row that the SELECT of \<open>find_match\<close> produces (a \<open>sqlite3.Row\<close>).\<close>

record 'r match =
  m_image_id :: int
  m_L :: 'r
  m_a :: 'r
  m_b :: 'r
  m_ab_distance :: 'r
  m_rank :: int
  m_usages :: int
  m_filename :: string

section \<open>salient_colors\<close>

text \<open>
  \<open>salient_colors(img, clusters=4, size=100)\<close>: the assertion on the mode, then
  \<open>img.thumbnail((size, size))\<close> on the caller's object, then the clustering. The
  second component of the result is the state of the image object after the call.
\<close>

definition salient_colors ::
  "('im, 'r) libs \<Rightarrow> 'im \<Rightarrow> nat \<Rightarrow> int \<Rightarrow> (error + rgb list) \<times> 'im" where
  "salient_colors lb img clusters sz =
     (if im_mode lb img \<noteq> ''RGB'' then (Inl AssertionError, img)
      else
        (let img' = thumbnail lb img (sz, sz) in
         (case cluster lb img' clusters of
            None \<Rightarrow> (Inl LibraryError, img')
          | Some ranked_colors \<Rightarrow> (Inr ranked_colors, img'))))"

section \<open>The image pool\<close>

text \<open>\<open>FROM Colors JOIN Images USING (image_id)\<close>, scanning Colors in rowid order.\<close>

definition joined :: "'r db \<Rightarrow> ('r color_row \<times> image_row) list" where
  "joined d =
     concat (map (\<lambda>c. map (\<lambda>i. (c, i))
                        (filter (\<lambda>i. image_id i = c_image_id c) (Images d)))
                 (Colors d))"

text \<open>\<open>WHERE usages <= ?\<close>\<close>

definition eligible :: "int \<Rightarrow> 'r db \<Rightarrow> ('r color_row \<times> image_row) list" where
  "eligible max_usages d = filter (\<lambda>(c, i). usages i \<le> max_usages) (joined d)"

text \<open>
  The selected columns, with \<open>(a-?)*(a-?) + (b-?)*(b-?) as ab_distance\<close>, computed
  with the arithmetic of sqlite.
\<close>

definition select_row ::
  "('im, 'r) libs \<Rightarrow> 'r \<Rightarrow> 'r \<Rightarrow> 'r color_row \<times> image_row \<Rightarrow> 'r match" where
  "select_row lb target_a target_b ci =
     (case ci of (c, i) \<Rightarrow>
        \<lparr> m_image_id = image_id i,
          m_L = c_L c, m_a = c_a c, m_b = c_b c,
          m_ab_distance =
            r_add lb (r_mul lb (r_sub lb (c_a c) target_a) (r_sub lb (c_a c) target_a))
                     (r_mul lb (r_sub lb (c_b c) target_b) (r_sub lb (c_b c) target_b)),
          m_rank = c_rank c,
          m_usages = usages i,
          m_filename = filename i \<rparr>)"

text \<open>
  \<open>ORDER BY ... ASC\<close> is an insertion sort with the order of sqlite; rows that the
  order does not separate keep their scan order.
\<close>

fun insort_by :: "('a \<Rightarrow> 'a \<Rightarrow> bool) \<Rightarrow> 'a \<Rightarrow> 'a list \<Rightarrow> 'a list" where
  "insort_by le x [] = [x]"
| "insort_by le x (y # ys) = (if le x y then x # y # ys else y # insort_by le x ys)"

definition sort_by :: "('a \<Rightarrow> 'a \<Rightarrow> bool) \<Rightarrow> 'a list \<Rightarrow> 'a list" where
  "sort_by le xs = foldr (insort_by le) xs []"

definition ab_le :: "('im, 'r) libs \<Rightarrow> 'r match \<Rightarrow> 'r match \<Rightarrow> bool" where
  "ab_le lb m m' = r_le lb (m_ab_distance m) (m_ab_distance m')"

text \<open>The whole query: \<open>ORDER BY ab_distance ASC LIMIT ?\<close>.\<close>

definition query ::
  "('im, 'r) libs \<Rightarrow> 'r \<Rightarrow> 'r \<Rightarrow> int \<Rightarrow> nat \<Rightarrow> 'r db \<Rightarrow> 'r match list" where
  "query lb target_a target_b max_usages n d =
     take n (sort_by (ab_le lb)
               (map (select_row lb target_a target_b) (eligible max_usages d)))"

text \<open>\<open>UPDATE Images SET usages=usages+1 WHERE image_id=?\<close>\<close>

definition increment_usage :: "'r db \<Rightarrow> int \<Rightarrow> 'r db" where
  "increment_usage d k =
     d\<lparr> Images :=
          map (\<lambda>r. if image_id r = k then r\<lparr> usages := usages r + 1 \<rparr> else r) (Images d) \<rparr>"

text \<open>
  A connection: the pool stored in the file and the pool as the connection sees it, which
  includes the changes of its open transaction. \<open>commit\<close> stores what the connection
  sees; \<open>close\<close> without a commit rolls the open transaction back, so the file keeps
  the stored pool.
\<close>

record 'r connection =
  stored :: "'r db"
  seen :: "'r db"

definition connect :: "'r db \<Rightarrow> 'r connection" where
  "connect d = \<lparr> stored = d, seen = d \<rparr>"

definition db_commit :: "'r connection \<Rightarrow> 'r connection" where
  "db_commit c = c\<lparr> stored := seen c \<rparr>"

definition db_close :: "'r connection \<Rightarrow> 'r db" where
  "db_close c = stored c"

text \<open>\<open>reset_usage\<close>: \<open>UPDATE Images SET usages=0\<close>, then \<open>db.commit()\<close>.\<close>

definition reset_usage :: "'r connection \<Rightarrow> 'r connection" where
  "reset_usage c =
     db_commit (c\<lparr> seen := (seen c)\<lparr> Images := map (\<lambda>r. r\<lparr> usages := 0 \<rparr>)
                                                  (Images (seen c)) \<rparr> \<rparr>)"

section \<open>find_match\<close>

definition LIMIT :: nat where
  "LIMIT = 10"

text \<open>
  Line 185 takes the first of the salient colours of the tile, converted to Lab. The
  arguments of \<open>map\<close> are evaluated from the left: an unbound \<open>rgb2lab\<close> raises
  NameError before \<open>salient_colors\<close> is called. The subscript \<open>[0]\<close> raises
  IndexError on an empty list. \<open>fetchone\<close> gives the first row of the query or
  \<open>None\<close>, and subscripting \<open>None\<close> in the UPDATE raises TypeError. The result is
  what the call returns or raises, the image object of the tile after the call and the
  pool as the connection \<open>db\<close> sees it after the call. \<open>find_match\<close> does not
  commit.
\<close>

definition find_match ::
  "('im, 'r) libs \<Rightarrow> 'im \<Rightarrow> 'r db \<Rightarrow> int \<Rightarrow> (error + 'r match) \<times> 'im \<times> 'r db" where
  "find_match lb tile d max_usages =
     (case rgb2lab lb of
        None \<Rightarrow> (Inl NameError, tile, d)
      | Some conv \<Rightarrow>
          (case salient_colors lb tile 4 100 of
             (Inl e, tile') \<Rightarrow> (Inl e, tile', d)
           | (Inr colors, tile') \<Rightarrow>
               (case map conv colors of
                  [] \<Rightarrow> (Inl IndexError, tile', d)
                | (target_l, target_a, target_b) # _ \<Rightarrow>
                    (case query lb target_a target_b max_usages LIMIT d of
                       [] \<Rightarrow> (Inl TypeError, tile', d)
                     | m # _ \<Rightarrow> (Inr m, tile', increment_usage d (m_image_id m))))))"

section \<open>Partition, crop and assembly\<close>

text \<open>Python's \<open>range(n)\<close>: empty when \<open>n\<close> is not positive.\<close>

definition py_range :: "int \<Rightarrow> int list" where
  "py_range n = map int [0..<nat n]"

text \<open>
  \<open>partition_target(img, tile_size)\<close>. The operator \<open>//\<close> is floor division and
  raises ZeroDivisionError on a zero divisor; the width is computed before the height.
\<close>

definition partition_target ::
  "('im, 'r) libs \<Rightarrow> 'im \<Rightarrow> int \<times> int \<Rightarrow> error + 'im list list" where
  "partition_target lb img tile_size =
     (if fst tile_size = 0 then Inl ZeroDivisionError
      else if snd tile_size = 0 then Inl ZeroDivisionError
      else
        (let width = fst (im_size lb img) div fst tile_size;
             height = snd (im_size lb img) div snd tile_size
         in Inr (map (\<lambda>y. map (\<lambda>x. crop lb img (x * fst tile_size,
                                                   y * snd tile_size,
                                                   (x + 1) * fst tile_size,
                                                   (y + 1) * snd tile_size))
                              (py_range width))
                     (py_range height))))"

text \<open>
  The canvas of \<open>assemble_mosaic\<close>: \<open>Image.new('RGB', size)\<close> and the calls of
  \<open>paste(tile, pos)\<close> made on it, in order. A paste without a mask overwrites the
  pixels of the region.
\<close>

record 'im mosaic =
  mo_mode :: string
  mo_size :: "int \<times> int"
  mo_pastes :: "('im \<times> int \<times> int) list"

definition enumerate_py :: "'a list \<Rightarrow> (int \<times> 'a) list" where
  "enumerate_py xs = zip (map int [0..<length xs]) xs"

text \<open>\<open>assemble_mosaic(tiles, tile_size)\<close>; \<open>tiles[0]\<close> raises IndexError on no rows.\<close>

definition assemble_mosaic :: "'im list list \<Rightarrow> int \<times> int \<Rightarrow> error + 'im mosaic" where
  "assemble_mosaic tiles tile_size =
     (case tiles of
        [] \<Rightarrow> Inl IndexError
      | row0 # _ \<Rightarrow>
          Inr \<lparr> mo_mode = ''RGB'',
                mo_size = (int (length row0) * fst tile_size, int (length tiles) * snd tile_size),
                mo_pastes =
                  concat (map (\<lambda>(y, row).
                                 map (\<lambda>(x, tile). (tile, x * fst tile_size, y * snd tile_size))
                                     (enumerate_py row))
                              (enumerate_py tiles)) \<rparr>)"

text \<open>
  \<open>crop_to_fit(img, tile_size)\<close>, line by line. In the first branch the source reads
  \<open>crop_width\<close>, a name that nothing binds (the local is \<open>crop_w\<close>): NameError.
\<close>

definition crop_to_fit :: "('im, 'r) libs \<Rightarrow> 'im \<Rightarrow> int \<times> int \<Rightarrow> error + 'im" where
  "crop_to_fit lb img tile_size =
     (let img_w = fst (im_size lb img); img_h = snd (im_size lb img);
          tile_w = fst tile_size; tile_h = snd tile_size
      in if img_h = 0 then Inl ZeroDivisionError
         else if tile_h = 0 then Inl ZeroDivisionError
         else
           (let img_aspect = img_w div img_h; tile_aspect = tile_w div tile_h
            in if img_aspect > tile_aspect then Inl NameError
               else if tile_aspect = 0 then Inl ZeroDivisionError
               else
                 (let crop_w = img_w; crop_h = crop_w div tile_aspect;
                      x_offset = 0; y_offset = (img_h - crop_h) div 2
                  in Inr (resize lb (crop lb img (x_offset, y_offset,
                                                  x_offset + crop_w, y_offset + crop_h))
                                    (tile_w, tile_h)))))"

text \<open>\<open>make_tile(match, tile_size)\<close>\<close>

definition make_tile :: "('im, 'r) libs \<Rightarrow> 'r match \<Rightarrow> int \<times> int \<Rightarrow> error + 'im" where
  "make_tile lb m tile_size =
     (case image_open lb (m_filename m) of
        None \<Rightarrow> Inl IOError
      | Some raw \<Rightarrow> crop_to_fit lb raw tile_size)"

section \<open>photomosaic\<close>

text \<open>
  The two loops of \<open>photomosaic\<close>: every tile is replaced by the tile made from its
  match. There is no \<open>except\<close> clause around them, so the first exception ends the run.
  The pool is the one that the connection sees; every call of \<open>find_match\<close> sees the
  increments of the calls before it.
\<close>

fun match_row ::
  "('im, 'r) libs \<Rightarrow> int \<times> int \<Rightarrow> 'im list \<Rightarrow> 'r db \<Rightarrow> (error + 'im list) \<times> 'r db" where
  "match_row lb tile_size [] d = (Inr [], d)"
| "match_row lb tile_size (tile # rest) d =
     (case find_match lb tile d 5 of
        (Inl e, _, d') \<Rightarrow> (Inl e, d')
      | (Inr m, _, d') \<Rightarrow>
          (case make_tile lb m tile_size of
             Inl e \<Rightarrow> (Inl e, d')
           | Inr t \<Rightarrow>
               (case match_row lb tile_size rest d' of
                  (Inl e, d'') \<Rightarrow> (Inl e, d'')
                | (Inr ts, d'') \<Rightarrow> (Inr (t # ts), d''))))"

fun match_rows ::
  "('im, 'r) libs \<Rightarrow> int \<times> int \<Rightarrow> 'im list list \<Rightarrow> 'r db \<Rightarrow>
     (error + 'im list list) \<times> 'r db" where
  "match_rows lb tile_size [] d = (Inr [], d)"
| "match_rows lb tile_size (row # rest) d =
     (case match_row lb tile_size row d of
        (Inl e, d') \<Rightarrow> (Inl e, d')
      | (Inr r, d') \<Rightarrow>
          (case match_rows lb tile_size rest d' of
             (Inl e, d'') \<Rightarrow> (Inl e, d'')
           | (Inr rs, d'') \<Rightarrow> (Inr (r # rs), d'')))"

datatype 'im outcome = ReturnCode int | Mosaic "'im mosaic"

text \<open>
  \<open>photomosaic(target_filename, tile_size, db_path)\<close>; the argument \<open>d\<close> is the pool
  stored at \<open>db_path\<close> before the run and the second component of the result the pool
  stored there after it. Only \<open>reset_usage\<close> commits: the increments of
  \<open>find_match\<close> are in the open transaction when \<open>db.close()\<close> runs in the
  \<open>finally\<close> clause, and are rolled back.
\<close>

definition photomosaic ::
  "('im, 'r) libs \<Rightarrow> string \<Rightarrow> int \<times> int \<Rightarrow> 'r db \<Rightarrow> (error + 'im outcome) \<times> 'r db" where
  "photomosaic lb target_filename tile_size d =
     (case image_open lb target_filename of
        None \<Rightarrow> (Inr (ReturnCode 1), d)
      | Some target_img \<Rightarrow>
          (case partition_target lb target_img tile_size of
             Inl e \<Rightarrow> (Inl e, d)
           | Inr tiles \<Rightarrow>
               (let c = reset_usage (connect d) in
                (case match_rows lb tile_size tiles (seen c) of
                   (Inl e, d') \<Rightarrow> (Inl e, db_close (c\<lparr> seen := d' \<rparr>))
                 | (Inr tiles', d') \<Rightarrow>
                     (case assemble_mosaic tiles' tile_size of
                        Inl e \<Rightarrow> (Inl e, db_close (c\<lparr> seen := d' \<rparr>))
                      | Inr mo \<Rightarrow> (Inr (Mosaic mo), db_close (c\<lparr> seen := d' \<rparr>)))))))"

section \<open>Building the pool\<close>

text \<open>
  \<open>create_tables\<close> declares \<open>image_id INTEGER PRIMARY KEY\<close> and
  \<open>filename TEXT UNIQUE\<close>; \<open>None\<close> is a store without tables. A pool that sqlite can
  hold satisfies \<open>constraints\<close>.
\<close>

definition create_tables :: "'r db option \<Rightarrow> 'r db" where
  "create_tables s = (case s of None \<Rightarrow> \<lparr> Images = [], Colors = [] \<rparr> | Some d \<Rightarrow> d)"

definition constraints :: "'r db \<Rightarrow> bool" where
  "constraints d \<longleftrightarrow>
     distinct (map image_id (Images d)) \<and> distinct (map filename (Images d)) \<and>
     distinct (map color_id (Colors d))"

text \<open>The rowid that sqlite gives a new row: 1 in an empty table, else the largest plus 1.\<close>

definition next_rowid :: "int list \<Rightarrow> int" where
  "next_rowid ids = (case ids of [] \<Rightarrow> 1 | k # ks \<Rightarrow> fold max ks k + 1)"

text \<open>
  The loop of \<open>insert\<close> over \<open>xrange(len(rgb))\<close>; \<open>lab[i]\<close> raises IndexError when
  \<open>lab\<close> is the shorter list, and the rows written before stay.
\<close>

fun insert_colors ::
  "int \<Rightarrow> nat \<Rightarrow> rgb list \<Rightarrow> ('r \<times> 'r \<times> 'r) list \<Rightarrow> 'r color_row list \<Rightarrow>
     error option \<times> 'r color_row list" where
  "insert_colors iid i [] lab rows = (None, rows)"
| "insert_colors iid i ((red, green, blue) # rgb) lab rows =
     (if i < length lab then
        (case lab ! i of (L, a, b) \<Rightarrow>
           insert_colors iid (Suc i) rgb lab
             (rows @ [\<lparr> color_id = next_rowid (map color_id rows), c_image_id = iid,
                        c_rank = 1 + int i, c_L = L, c_a = a, c_b = b,
                        c_red = red, c_green = green, c_blue = blue \<rparr>]))
      else (Some IndexError, rows))"

text \<open>
  \<open>insert(filename, w, h, rgb, lab, db)\<close>. The INSERT into Images raises
  \<open>sqlite3.IntegrityError\<close> when the file name is in the table already; the handler
  prints one line and the function returns. The result is the exception that leaves the
  function, if any, the lines printed and the pool.
\<close>

definition insert_db ::
  "string \<Rightarrow> int \<Rightarrow> int \<Rightarrow> rgb list \<Rightarrow> ('r \<times> 'r \<times> 'r) list \<Rightarrow> 'r db \<Rightarrow>
     error option \<times> string list \<times> 'r db" where
  "insert_db fname w h rgb lab d =
     (if fname \<in> set (map filename (Images d)) then
        (None, [''Image '' @ fname @ '' is already in the table. Skipping it.''], d)
      else
        (let iid = next_rowid (map image_id (Images d));
             d1 = d\<lparr> Images := Images d @
                       [\<lparr> image_id = iid, usages = 0, row_w = w, row_h = h, filename = fname \<rparr>] \<rparr>
         in (case insert_colors iid 0 rgb lab (Colors d1) of
               (err, rows) \<Rightarrow> (err, [], d1\<lparr> Colors := rows \<rparr>))))"

section \<open>Auxiliary definitions for the statements\<close>

text \<open>\<open>SELECT * FROM Images WHERE image_id = k\<close>\<close>

definition image_rows :: "'r db \<Rightarrow> int \<Rightarrow> image_row list" where
  "image_rows d k = filter (\<lambda>r. image_id r = k) (Images d)"

text \<open>
  A concrete instance of the library parameters, on which the model can be evaluated. An
  image is its mode, its size and the colours that clustering finds in it. The size after
  \<open>thumbnail\<close> follows the imaging library (PIL 1.1, \<open>Image.thumbnail\<close>: each side
  larger than the box is cut to the box and the other side scaled, at least 1); a crop has
  the size of its box, a resize the requested size. The colour conversion of the instance
  is a stand-in with the shape of the real one (lightness, then two opponent axes); the
  arithmetic of the instance is exact, on the reals.
\<close>

record sample_image =
  s_mode :: string
  s_size :: "int \<times> int"
  s_colors :: "rgb list"

definition thumbnail_size :: "int \<times> int \<Rightarrow> int \<times> int \<Rightarrow> int \<times> int" where
  "thumbnail_size sz bx =
     (let x = fst sz; y = snd sz;
          y1 = (if x > fst bx then max (y * fst bx div x) 1 else y);
          x1 = (if x > fst bx then fst bx else x);
          x2 = (if y1 > snd bx then max (x1 * snd bx div y1) 1 else x1);
          y2 = (if y1 > snd bx then snd bx else y1)
      in (x2, y2))"

text \<open>
  The image object of PIL 1.1: mode, size and pixel data. \<open>Image.thumbnail\<close> computes
  the new size as above, returns at once when it is the size the image has, and otherwise
  replaces the pixel data by the resampled data and sets the size; the mode stays.
  \<open>with_pil\<close> puts these in the place of the parameters \<open>im_mode\<close>, \<open>im_size\<close>
  and \<open>thumbnail\<close>; the resampling of the pixel data remains a parameter.
\<close>

record 'p pil_image =
  pi_mode :: string
  pi_size :: "int \<times> int"
  pi_data :: 'p

definition pil_thumbnail ::
  "('p pil_image \<Rightarrow> int \<times> int \<Rightarrow> 'p) \<Rightarrow> 'p pil_image \<Rightarrow> int \<times> int \<Rightarrow> 'p pil_image" where
  "pil_thumbnail resample im bx =
     (let sz = thumbnail_size (pi_size im) bx
      in if sz = pi_size im then im else im\<lparr> pi_size := sz, pi_data := resample im sz \<rparr>)"

definition with_pil ::
  "('p pil_image \<Rightarrow> int \<times> int \<Rightarrow> 'p) \<Rightarrow> ('p pil_image, 'r) libs \<Rightarrow> ('p pil_image, 'r) libs" where
  "with_pil resample lb =
     lb\<lparr> im_mode := pi_mode, im_size := pi_size, thumbnail := pil_thumbnail resample \<rparr>"

definition sample_files :: "string \<Rightarrow> sample_image option" where
  "sample_files f =
     (if f = ''red.jpg'' then Some \<lparr> s_mode = ''RGB'', s_size = (100, 100), s_colors = [(200, 10, 10)] \<rparr>
      else if f = ''blue.jpg'' then Some \<lparr> s_mode = ''RGB'', s_size = (640, 480), s_colors = [(10, 10, 200)] \<rparr>
      else if f = ''strip.png'' then Some \<lparr> s_mode = ''RGB'', s_size = (700, 100), s_colors = [(180, 20, 20)] \<rparr>
      else if f = ''target.png'' then Some \<lparr> s_mode = ''RGB'', s_size = (310, 200), s_colors = [(180, 20, 20)] \<rparr>
      else None)"

definition sample_rgb2lab :: "rgb \<Rightarrow> real \<times> real \<times> real" where
  "sample_rgb2lab c =
     (case c of (r, g, b) \<Rightarrow>
        (real_of_int (r + g + b) / 3, real_of_int (r - g), real_of_int (g - b)))"

definition sample_libs :: "(sample_image, real) libs" where
  "sample_libs =
     \<lparr> im_mode = s_mode,
       im_size = s_size,
       thumbnail = (\<lambda>im bx. im\<lparr> s_size := thumbnail_size (s_size im) bx \<rparr>),
       crop = (\<lambda>im bx. case bx of (x0, y0, x1, y1) \<Rightarrow> im\<lparr> s_size := (x1 - x0, y1 - y0) \<rparr>),
       resize = (\<lambda>im sz. im\<lparr> s_size := sz \<rparr>),
       image_open = sample_files,
       cluster = (\<lambda>im k. Some (take k (s_colors im))),
       rgb2lab = Some sample_rgb2lab,
       r_sub = (\<lambda>x y. x - y),
       r_mul = (\<lambda>x y. x * y),
       r_add = (\<lambda>x y. x + y),
       r_le = (\<lambda>x y. x \<le> y) \<rparr>"

text \<open>
  The same libraries in the namespace of the module as it is imported: nothing binds
  the name \<open>rgb2lab\<close>.
\<close>

definition module_libs :: "(sample_image, real) libs" where
  "module_libs = sample_libs\<lparr> rgb2lab := None \<rparr>"

definition sample_tile :: sample_image where
  "sample_tile = \<lparr> s_mode = ''RGB'', s_size = (100, 100), s_colors = [(180, 20, 20)] \<rparr>"

text \<open>A pool of one image with one signature entry, the image used \<open>u\<close> times.\<close>

definition pool1 :: "int \<Rightarrow> real db" where
  "pool1 u =
     \<lparr> Images = [\<lparr> image_id = 1, usages = u, row_w = 100, row_h = 100, filename = ''red.jpg'' \<rparr>],
       Colors = [\<lparr> color_id = 1, c_image_id = 1, c_rank = 1, c_L = 40, c_a = 190, c_b = 0,
                   c_red = 200, c_green = 10, c_blue = 10 \<rparr>] \<rparr>"

text \<open>A pool of two images, the second with two signature entries.\<close>

definition pool2 :: "real db" where
  "pool2 =
     \<lparr> Images = [\<lparr> image_id = 1, usages = 0, row_w = 100, row_h = 100, filename = ''red.jpg'' \<rparr>,
                 \<lparr> image_id = 2, usages = 3, row_w = 640, row_h = 480, filename = ''blue.jpg'' \<rparr>],
       Colors = [\<lparr> color_id = 1, c_image_id = 1, c_rank = 1, c_L = 40, c_a = 190, c_b = 0,
                   c_red = 200, c_green = 10, c_blue = 10 \<rparr>,
                 \<lparr> color_id = 2, c_image_id = 2, c_rank = 1, c_L = 30, c_a = 0, c_b = -190,
                   c_red = 10, c_green = 10, c_blue = 200 \<rparr>,
                 \<lparr> color_id = 3, c_image_id = 2, c_rank = 2, c_L = 90, c_a = 150, c_b = 10,
                   c_red = 250, c_green = 240, c_blue = 240 \<rparr>] \<rparr>"

text \<open>The rows that the query returns from \<open>pool1\<close> and \<open>pool2\<close> for \<open>sample_tile\<close>.\<close>

definition red_match :: "int \<Rightarrow> real match" where
  "red_match u =
     \<lparr> m_image_id = 1, m_L = 40, m_a = 190, m_b = 0, m_ab_distance = 900, m_rank = 1,
       m_usages = u, m_filename = ''red.jpg'' \<rparr>"

definition pale_match :: "real match" where
  "pale_match =
     \<lparr> m_image_id = 2, m_L = 90, m_a = 150, m_b = 10, m_ab_distance = 200, m_rank = 2,
       m_usages = 3, m_filename = ''blue.jpg'' \<rparr>"

text \<open>The image of the file \<open>red.jpg\<close> and the target \<open>strip.png\<close> of the instance.\<close>

definition red_image :: sample_image where
  "red_image = \<lparr> s_mode = ''RGB'', s_size = (100, 100), s_colors = [(200, 10, 10)] \<rparr>"

definition strip_image :: sample_image where
  "strip_image = \<lparr> s_mode = ''RGB'', s_size = (700, 100), s_colors = [(180, 20, 20)] \<rparr>"

text \<open>
  Images of the instance: a greyscale one, a wide one, a tall one and the image of the
  file \<open>blue.jpg\<close>.
\<close>

definition grey_image :: sample_image where
  "grey_image = \<lparr> s_mode = ''L'', s_size = (500, 500), s_colors = [] \<rparr>"

definition wide_image :: sample_image where
  "wide_image = \<lparr> s_mode = ''RGB'', s_size = (300, 100), s_colors = [(10, 10, 200)] \<rparr>"

definition tall_image :: sample_image where
  "tall_image = \<lparr> s_mode = ''RGB'', s_size = (100, 300), s_colors = [(10, 10, 200)] \<rparr>"

definition blue_image :: sample_image where
  "blue_image = \<lparr> s_mode = ''RGB'', s_size = (640, 480), s_colors = [(10, 10, 200)] \<rparr>"

text \<open>An instance with the image objects of PIL, without pixel data.\<close>

definition pil_sample :: "(unit pil_image, real) libs" where
  "pil_sample =
     with_pil (\<lambda>im sz. ())
       \<lparr> im_mode = pi_mode, im_size = pi_size, thumbnail = (\<lambda>im bx. im),
         crop = (\<lambda>im bx. im), resize = (\<lambda>im sz. im\<lparr> pi_size := sz \<rparr>),
         image_open = (\<lambda>f. None), cluster = (\<lambda>im k. Some [(180, 20, 20)]),
         rgb2lab = Some sample_rgb2lab,
         r_sub = (\<lambda>x y. x - y), r_mul = (\<lambda>x y. x * y), r_add = (\<lambda>x y. x + y),
         r_le = (\<lambda>x y. x \<le> y) \<rparr>"

definition pil_strip :: "unit pil_image" where
  "pil_strip = \<lparr> pi_mode = ''RGB'', pi_size = (700, 100), pi_data = () \<rparr>"

text \<open>The line that \<open>insert\<close> prints for a file name that is registered already.\<close>

definition skip_message :: "string \<Rightarrow> string" where
  "skip_message fname = ''Image '' @ fname @ '' is already in the table. Skipping it.''"

section \<open>Facts about the query\<close>

lemma set_insort_by: "set (insort_by le x xs) = insert x (set xs)"
  by (induction xs) auto

lemma sort_by_Cons: "sort_by le (x # xs) = insort_by le x (sort_by le xs)"
  by (simp add: sort_by_def)

lemma set_sort_by: "set (sort_by le xs) = set xs"
  by (induction xs) (simp_all add: sort_by_def set_insort_by)

lemma insort_by_not_Nil: "insort_by le x xs \<noteq> []"
  by (cases xs) simp_all

lemma sort_by_Nil_iff: "sort_by le xs = [] \<longleftrightarrow> xs = []"
  by (cases xs) (simp_all add: sort_by_Cons insort_by_not_Nil, simp add: sort_by_def)

lemma sorted_insort_by:
  assumes total: "\<forall>x y. le x y \<or> le y x"
    and trans: "\<forall>x y z. le x y \<and> le y z \<longrightarrow> le x z"
    and "sorted_wrt le xs"
  shows "sorted_wrt le (insort_by le x xs)"
  using assms(3)
proof (induction xs)
  case Nil
  then show ?case by simp
next
  case (Cons y ys)
  show ?case
  proof (cases "le x y")
    case True
    have "le x z" if "z \<in> set ys" for z
    proof -
      from Cons.prems that have "le y z" by simp
      with True trans show ?thesis by blast
    qed
    with True Cons.prems show ?thesis by simp
  next
    case False
    with total have "le y x" by blast
    moreover from Cons.prems have "\<forall>z \<in> set ys. le y z" and "sorted_wrt le ys" by simp_all
    ultimately show ?thesis using False Cons.IH by (simp add: set_insort_by)
  qed
qed

lemma sorted_sort_by:
  assumes "\<forall>x y. le x y \<or> le y x" and "\<forall>x y z. le x y \<and> le y z \<longrightarrow> le x z"
  shows "sorted_wrt le (sort_by le xs)"
proof (induction xs)
  case Nil
  show ?case by (simp add: sort_by_def)
next
  case (Cons x xs)
  with sorted_insort_by [OF assms] show ?case by (simp add: sort_by_Cons)
qed

lemma sort_by_head_least:
  assumes "\<forall>x y. le x y \<or> le y x" and "\<forall>x y z. le x y \<and> le y z \<longrightarrow> le x z"
    and "sort_by le xs = z # zs" and "y \<in> set xs"
  shows "le z y"
proof -
  have "sorted_wrt le (z # zs)"
    using sorted_sort_by [OF assms(1,2), of xs] assms(3) by simp
  moreover have "y \<in> set (z # zs)"
    using assms(3,4) set_sort_by [of le xs] by simp
  moreover have "le z z"
    using assms(1) by blast
  ultimately show ?thesis by auto
qed

lemma query_Nil_iff: "query lb ta tb mx LIMIT d = [] \<longleftrightarrow> eligible mx d = []"
  by (simp add: query_def LIMIT_def sort_by_Nil_iff)

lemma take_Cons_hd: "take n xs = z # zs \<Longrightarrow> \<exists>ys. xs = z # ys"
  by (cases xs) (auto split: if_splits simp: take_Cons')

lemma query_Cons:
  assumes "query lb ta tb mx n d = m # ms"
  shows "m \<in> select_row lb ta tb ` set (eligible mx d)"
proof -
  have "take n (sort_by (ab_le lb) (map (select_row lb ta tb) (eligible mx d))) = m # ms"
    using assms by (simp add: query_def)
  then obtain ys
    where ys: "sort_by (ab_le lb) (map (select_row lb ta tb) (eligible mx d)) = m # ys"
    using take_Cons_hd by fastforce
  have "m \<in> set (sort_by (ab_le lb) (map (select_row lb ta tb) (eligible mx d)))"
    unfolding ys by simp
  then show ?thesis by (simp add: set_sort_by)
qed

lemma query_head_least:
  assumes "\<forall>x y. r_le lb x y \<or> r_le lb y x"
    and "\<forall>x y z. r_le lb x y \<and> r_le lb y z \<longrightarrow> r_le lb x z"
    and "query lb ta tb mx n d = m # ms" and "ci \<in> set (eligible mx d)"
  shows "r_le lb (m_ab_distance m) (m_ab_distance (select_row lb ta tb ci))"
proof -
  have "take n (sort_by (ab_le lb) (map (select_row lb ta tb) (eligible mx d))) = m # ms"
    using assms(3) by (simp add: query_def)
  then obtain ys
    where ys: "sort_by (ab_le lb) (map (select_row lb ta tb) (eligible mx d)) = m # ys"
    using take_Cons_hd by fastforce
  have t: "\<forall>x y. ab_le lb x y \<or> ab_le lb y x"
    using assms(1) by (simp add: ab_le_def)
  have tr: "\<forall>x y z. ab_le lb x y \<and> ab_le lb y z \<longrightarrow> ab_le lb x z"
    using assms(2) unfolding ab_le_def by blast
  have "select_row lb ta tb ci \<in> set (map (select_row lb ta tb) (eligible mx d))"
    using assms(4) by simp
  from sort_by_head_least [OF t tr ys this] show ?thesis
    by (simp add: ab_le_def)
qed

lemma set_joined:
  "set (joined d) =
     {(c, i). c \<in> set (Colors d) \<and> i \<in> set (Images d) \<and> image_id i = c_image_id c}"
  by (auto simp: joined_def)

lemma set_eligible:
  "set (eligible mx d) =
     {(c, i). c \<in> set (Colors d) \<and> i \<in> set (Images d) \<and> image_id i = c_image_id c \<and>
              usages i \<le> mx}"
  by (auto simp: eligible_def set_joined)

section \<open>The paths through find_match\<close>

lemma find_match_line185:
  assumes "rgb2lab lb = Some conv"
    and "salient_colors lb tile 4 100 = (Inr (c # cs), tile')" and "conv c = (t_l, ta, tb)"
  shows "find_match lb tile d mx =
           (case query lb ta tb mx LIMIT d of
              [] \<Rightarrow> (Inl TypeError, tile', d)
            | m # _ \<Rightarrow> (Inr m, tile', increment_usage d (m_image_id m)))"
  using assms by (simp add: find_match_def)

lemma find_match_cases:
  obtains (unbound) "rgb2lab lb = None"
      and "find_match lb tile d mx = (Inl NameError, tile, d)"
    | (assert) conv e tile' where "rgb2lab lb = Some conv"
      and "salient_colors lb tile 4 100 = (Inl e, tile')"
      and "find_match lb tile d mx = (Inl e, tile', d)"
    | (index) conv tile' where "rgb2lab lb = Some conv"
      and "salient_colors lb tile 4 100 = (Inr [], tile')"
      and "find_match lb tile d mx = (Inl IndexError, tile', d)"
    | (none) conv c cs tile' t_l ta tb where "rgb2lab lb = Some conv"
      and "salient_colors lb tile 4 100 = (Inr (c # cs), tile')"
      and "conv c = (t_l, ta, tb)" and "query lb ta tb mx LIMIT d = []"
      and "find_match lb tile d mx = (Inl TypeError, tile', d)"
    | (found) conv c cs tile' t_l ta tb m ms where "rgb2lab lb = Some conv"
      and "salient_colors lb tile 4 100 = (Inr (c # cs), tile')"
      and "conv c = (t_l, ta, tb)" and "query lb ta tb mx LIMIT d = m # ms"
      and "find_match lb tile d mx = (Inr m, tile', increment_usage d (m_image_id m))"
proof (cases "rgb2lab lb")
  case None
  then have "find_match lb tile d mx = (Inl NameError, tile, d)"
    by (simp add: find_match_def)
  with None show thesis by (rule unbound)
next
  case (Some conv)
  obtain r tile' where sc: "salient_colors lb tile 4 100 = (r, tile')"
    by (cases "salient_colors lb tile 4 100") auto
  show thesis
  proof (cases r)
    case (Inl e)
    with sc Some have "find_match lb tile d mx = (Inl e, tile', d)"
      by (simp add: find_match_def)
    with sc Inl Some show thesis using assert by blast
  next
    case (Inr colors)
    show thesis
    proof (cases colors)
      case Nil
      with sc Inr Some have "find_match lb tile d mx = (Inl IndexError, tile', d)"
        by (simp add: find_match_def)
      with sc Inr Nil Some show thesis using index by blast
    next
      case (Cons c cs)
      obtain t_l ta tb where lab: "conv c = (t_l, ta, tb)"
        by (cases "conv c") auto
      have sc': "salient_colors lb tile 4 100 = (Inr (c # cs), tile')"
        using sc Inr Cons by simp
      note fm = find_match_line185 [OF Some sc' lab, of d mx]
      show thesis
      proof (cases "query lb ta tb mx LIMIT d")
        case Nil
        with fm have "find_match lb tile d mx = (Inl TypeError, tile', d)"
          by simp
        with Some sc' lab Nil show thesis using none by blast
      next
        case (Cons m ms)
        with fm have "find_match lb tile d mx = (Inr m, tile', increment_usage d (m_image_id m))"
          by simp
        with Some sc' lab Cons show thesis using found by blast
      qed
    qed
  qed
qed

lemma find_match_InrD:
  assumes "find_match lb tile d mx = (Inr m, tile', d')"
  shows "\<exists>ta tb ms. query lb ta tb mx LIMIT d = m # ms \<and> d' = increment_usage d (m_image_id m)"
proof (cases rule: find_match_cases [of lb tile d mx])
  case unbound
  with assms show ?thesis by simp
next
  case (assert conv e tile'')
  with assms show ?thesis by simp
next
  case (index conv tile'')
  with assms show ?thesis by simp
next
  case (none conv c cs tile'' t_l ta tb)
  with assms show ?thesis by simp
next
  case (found conv c cs tile'' t_l ta tb m' ms)
  with assms have "m' = m" and "d' = increment_usage d (m_image_id m)" by auto
  with found(4) show ?thesis by blast
qed

lemma find_match_InlD:
  assumes "find_match lb tile d mx = (Inl e, tile', d')"
  shows "d' = d"
proof (cases rule: find_match_cases [of lb tile d mx])
  case unbound
  with assms show ?thesis by simp
next
  case (assert conv e tile'')
  with assms show ?thesis by simp
next
  case (index conv tile'')
  with assms show ?thesis by simp
next
  case (none conv c cs tile'' t_l ta tb)
  with assms show ?thesis by simp
next
  case (found conv c cs tile'' t_l ta tb m' ms)
  with assms show ?thesis by simp
qed

lemma set_query_subset:
  "set (query lb ta tb mx n d) \<subseteq> select_row lb ta tb ` set (eligible mx d)"
proof -
  have "set (query lb ta tb mx n d) \<subseteq>
          set (sort_by (ab_le lb) (map (select_row lb ta tb) (eligible mx d)))"
    unfolding query_def by (rule set_take_subset)
  then show ?thesis by (simp add: set_sort_by)
qed

section \<open>Facts about the usage counters\<close>

lemma filter_key_distinct:
  assumes "distinct (map f xs)" and "x \<in> set xs"
  shows "filter (\<lambda>r. f r = f x) xs = [x]"
  using assms
proof (induction xs)
  case Nil
  then show ?case by simp
next
  case (Cons y ys)
  show ?case
  proof (cases "x = y")
    case True
    have "f y \<notin> f ` set ys"
      using Cons.prems(1) by simp
    then have "\<forall>r \<in> set ys. f r \<noteq> f y"
      by (metis imageI)
    then have "filter (\<lambda>r. f r = f y) ys = []"
      by (simp add: filter_empty_conv)
    with True show ?thesis by simp
  next
    case False
    with Cons.prems have "x \<in> set ys" and "f y \<noteq> f x" by auto
    with Cons show ?thesis by simp
  qed
qed

lemma image_rows_increment:
  "image_rows (increment_usage d k0) k =
     map (\<lambda>r. if image_id r = k0 then r\<lparr> usages := usages r + 1 \<rparr> else r) (image_rows d k)"
proof -
  have "filter (\<lambda>r. image_id r = k)
          (map (\<lambda>r. if image_id r = k0 then r\<lparr> usages := usages r + 1 \<rparr> else r) xs) =
        map (\<lambda>r. if image_id r = k0 then r\<lparr> usages := usages r + 1 \<rparr> else r)
          (filter (\<lambda>r. image_id r = k) xs)" for xs
    by (induction xs) auto
  then show ?thesis by (simp add: image_rows_def increment_usage_def)
qed

lemma image_rows_increment_other:
  assumes "k \<noteq> k0"
  shows "image_rows (increment_usage d k0) k = image_rows d k"
proof -
  have "map (\<lambda>r. if image_id r = k0 then r\<lparr> usages := usages r + 1 \<rparr> else r) (image_rows d k) =
        map (\<lambda>r. r) (image_rows d k)"
    using assms by (intro map_cong) (auto simp: image_rows_def)
  then show ?thesis by (simp add: image_rows_increment)
qed

lemma image_ids_increment:
  "map image_id (Images (increment_usage d k0)) = map image_id (Images d)"
  by (simp add: increment_usage_def comp_def)

lemma Colors_increment: "Colors (increment_usage d k0) = Colors d"
  by (simp add: increment_usage_def)



section \<open>Facts about the loops of photomosaic\<close>

lemma match_row_append:
  "match_row lb ts (xs @ ys) d =
     (case match_row lb ts xs d of
        (Inl e, d') \<Rightarrow> (Inl e, d')
      | (Inr r, d') \<Rightarrow>
          (case match_row lb ts ys d' of
             (Inl e, d'') \<Rightarrow> (Inl e, d'')
           | (Inr r', d'') \<Rightarrow> (Inr (r @ r'), d'')))"
proof (induction xs arbitrary: d)
  case Nil
  show ?case by (simp split: prod.splits sum.splits)
next
  case (Cons x xs)
  obtain r tile' d1 where fm: "find_match lb x d 5 = (r, tile', d1)"
    by (cases "find_match lb x d 5") auto
  show ?case
  proof (cases r)
    case (Inl e)
    with fm show ?thesis by simp
  next
    case (Inr m)
    show ?thesis
    proof (cases "make_tile lb m ts")
      case (Inl e)
      with fm \<open>r = Inr m\<close> show ?thesis by simp
    next
      case mk: (Inr t)
      obtain r1 d2 where r1: "match_row lb ts xs d1 = (r1, d2)"
        by (cases "match_row lb ts xs d1") auto
      show ?thesis
      proof (cases r1)
        case (Inl e)
        with fm \<open>r = Inr m\<close> mk r1 Cons.IH [of d1] show ?thesis by simp
      next
        case (Inr matched)
        obtain r2 d3 where r2: "match_row lb ts ys d2 = (r2, d3)"
          by (cases "match_row lb ts ys d2") auto
        with fm \<open>r = Inr m\<close> mk r1 Inr Cons.IH [of d1] show ?thesis
          by (cases r2) simp_all
      qed
    qed
  qed
qed

lemma match_rows_concat:
  "(case match_rows lb ts rows d of
      (Inl e, d') \<Rightarrow> match_row lb ts (concat rows) d = (Inl e, d')
    | (Inr rs, d') \<Rightarrow> match_row lb ts (concat rows) d = (Inr (concat rs), d'))"
proof (induction rows arbitrary: d)
  case Nil
  show ?case by simp
next
  case (Cons row rows)
  obtain r d1 where r: "match_row lb ts row d = (r, d1)"
    by (cases "match_row lb ts row d") auto
  show ?case
  proof (cases r)
    case (Inl e)
    with r show ?thesis by (simp add: match_row_append)
  next
    case (Inr matched)
    obtain r2 d2 where r2: "match_rows lb ts rows d1 = (r2, d2)"
      by (cases "match_rows lb ts rows d1") auto
    with r Inr Cons.IH [of d1] show ?thesis
      by (cases r2) (simp_all add: match_row_append)
  qed
qed

lemma match_rows_error:
  assumes "match_row lb ts (concat rows) d = (Inl e, d')"
  shows "match_rows lb ts rows d = (Inl e, d')"
proof -
  obtain r d1 where r: "match_rows lb ts rows d = (r, d1)"
    by (cases "match_rows lb ts rows d") auto
  show ?thesis
  proof (cases r)
    case (Inl e1)
    with r match_rows_concat [of lb ts rows d] assms show ?thesis by simp
  next
    case (Inr rs)
    with r match_rows_concat [of lb ts rows d] assms show ?thesis by simp
  qed
qed

lemma match_row_error_at:
  assumes "match_row lb ts pre d = (Inr matched, d1)"
    and "find_match lb tile d1 5 = (Inl e, tile', d2)"
  shows "match_row lb ts (pre @ tile # post) d = (Inl e, d2)"
  using assms by (simp add: match_row_append)

lemma reset_usage_connect:
  "seen (reset_usage (connect d)) = d\<lparr> Images := map (\<lambda>r. r\<lparr> usages := 0 \<rparr>) (Images d) \<rparr>"
  "stored (reset_usage (connect d)) = d\<lparr> Images := map (\<lambda>r. r\<lparr> usages := 0 \<rparr>) (Images d) \<rparr>"
  by (simp_all add: reset_usage_def connect_def db_commit_def)

lemma db_close_seen: "db_close (c\<lparr> seen := d' \<rparr>) = stored c"
  by (simp add: db_close_def)

lemma photomosaic_error_at:
  assumes "image_open lb f = Some target"
    and "partition_target lb target ts = Inr tiles"
    and "concat tiles = pre @ tile # post"
    and "match_row lb ts pre (seen (reset_usage (connect d))) = (Inr matched, d1)"
    and "find_match lb tile d1 5 = (Inl e, tile', d2)"
  shows "photomosaic lb f ts d = (Inl e, stored (reset_usage (connect d)))"
proof -
  have "match_row lb ts (concat tiles) (seen (reset_usage (connect d))) = (Inl e, d2)"
    unfolding assms(3) using assms(4,5) by (rule match_row_error_at)
  then have "match_rows lb ts tiles (seen (reset_usage (connect d))) = (Inl e, d2)"
    by (rule match_rows_error)
  with assms(1,2) show ?thesis by (simp add: photomosaic_def Let_def db_close_seen)
qed

section \<open>Evaluation on the sample instance\<close>

lemma sample_tile_colors:
  "salient_colors sample_libs sample_tile 4 100 = (Inr [(180, 20, 20)], sample_tile)"
  by (simp add: salient_colors_def sample_libs_def sample_tile_def thumbnail_size_def)

lemma sample_converter: "rgb2lab sample_libs = Some sample_rgb2lab"
  by (simp add: sample_libs_def)

lemma sample_tile_lab: "sample_rgb2lab (180, 20, 20) = (220 / 3, 160, 0)"
  by (simp add: sample_rgb2lab_def)

lemma sample_arith:
  "r_sub sample_libs x y = x - y" "r_mul sample_libs x y = x * y"
  "r_add sample_libs x y = x + y" "r_le sample_libs x y \<longleftrightarrow> x \<le> y"
  by (simp_all add: sample_libs_def)

lemma pool1_eligible:
  "eligible mx (pool1 u) =
     (if u \<le> mx then [(hd (Colors (pool1 u)), hd (Images (pool1 u)))] else [])"
  by (simp add: eligible_def joined_def pool1_def)

lemma pool1_query:
  "query sample_libs 160 0 mx LIMIT (pool1 u) = (if u \<le> mx then [red_match u] else [])"
  by (simp add: query_def pool1_eligible LIMIT_def sort_by_def)
     (simp add: pool1_def select_row_def red_match_def sample_arith)

lemma pool1_increment: "increment_usage (pool1 u) 1 = pool1 (u + 1)"
  by (simp add: increment_usage_def pool1_def)

lemma pool1_find_match:
  "find_match sample_libs sample_tile (pool1 u) mx =
     (if u \<le> mx then (Inr (red_match u), sample_tile, pool1 (u + 1))
      else (Inl TypeError, sample_tile, pool1 u))"
  using find_match_line185 [OF sample_converter sample_tile_colors sample_tile_lab, of "pool1 u" mx]
  by (simp add: pool1_query pool1_increment red_match_def)

lemma pool2_eligible: "length (eligible 5 pool2) = 3"
  by (simp add: eligible_def joined_def pool2_def)

lemma pool2_query:
  "query sample_libs 160 0 5 LIMIT pool2 =
     pale_match # tl (query sample_libs 160 0 5 LIMIT pool2)"
  by (simp add: query_def eligible_def joined_def pool2_def select_row_def LIMIT_def
      pale_match_def sort_by_def ab_le_def sample_arith)

lemma pool2_find_match:
  "find_match sample_libs sample_tile pool2 5 = (Inr pale_match, sample_tile, increment_usage pool2 2)"
  using find_match_line185 [OF sample_converter sample_tile_colors sample_tile_lab, of pool2 5] pool2_query
  by (metis (no_types, lifting) list.simps(5) match.select_convs(1) pale_match_def)

lemma pool1_reset:
  "seen (reset_usage (connect (pool1 u))) = pool1 0"
  "stored (reset_usage (connect (pool1 u))) = pool1 0"
  by (simp_all add: reset_usage_connect pool1_def)

lemma module_converter: "rgb2lab module_libs = None"
  by (simp add: module_libs_def)

lemma module_find_match: "find_match module_libs tile d mx = (Inl NameError, tile, d)"
  by (simp add: find_match_def module_converter)

lemma red_make_tile: "make_tile sample_libs (red_match u) (100, 100) = Inr red_image"
  by (simp add: make_tile_def red_match_def sample_libs_def sample_files_def crop_to_fit_def
      red_image_def)

lemma strip_open: "image_open sample_libs ''strip.png'' = Some strip_image"
  by (simp add: sample_libs_def sample_files_def strip_image_def)

lemma py_range_7: "py_range 7 = [0, 1, 2, 3, 4, 5, 6]"
  by (simp add: py_range_def eval_nat_numeral)

lemma py_range_1: "py_range 1 = [0]"
  by (simp add: py_range_def)

lemma strip_partition:
  "partition_target sample_libs strip_image (100, 100) =
     Inr [[sample_tile, sample_tile, sample_tile, sample_tile, sample_tile, sample_tile,
           sample_tile]]"
  by (simp add: partition_target_def py_range_7 py_range_1 sample_libs_def strip_image_def
      sample_tile_def)

lemma strip_match_row:
  "match_row sample_libs (100, 100)
     [sample_tile, sample_tile, sample_tile, sample_tile, sample_tile, sample_tile] (pool1 0) =
   (Inr [red_image, red_image, red_image, red_image, red_image, red_image], pool1 6)"
  by (simp add: pool1_find_match red_make_tile)

section \<open>Facts about the grid\<close>

lemma length_py_range: "length (py_range n) = nat n"
  by (simp add: py_range_def)

lemma nth_py_range: "i < nat n \<Longrightarrow> py_range n ! i = int i"
  by (simp add: py_range_def)

lemma enumerate_py_conv: "enumerate_py xs = map (\<lambda>i. (int i, xs ! i)) [0..<length xs]"
  by (rule nth_equalityI) (simp_all add: enumerate_py_def)

lemma map_snd_enumerate_py: "map snd (enumerate_py xs) = xs"
  by (simp add: enumerate_py_def)

lemma floor_div_remainder:
  fixes a b :: int
  assumes "0 < b"
  shows "a div b * b \<le> a \<and> a - a div b * b < b"
proof -
  have "a - a div b * b = a mod b"
    by (simp add: minus_div_mult_eq_mod)
  moreover have "0 \<le> a mod b" and "a mod b < b"
    using assms by simp_all
  ultimately show ?thesis by linarith
qed

section \<open>Facts about the thumbnail of the instance\<close>

lemma scaled_side_le:
  fixes x b y :: int
  assumes "b < y" and "1 \<le> b" and "x \<le> c" and "1 \<le> c"
  shows "max (x * b div y) 1 \<le> c"
proof (cases "0 \<le> x")
  case True
  have "x * b \<le> x * y"
    using True assms(1) by (intro mult_left_mono) simp_all
  then have "x * b div y \<le> x * y div y"
    using assms(1,2) by (intro zdiv_mono1) simp_all
  also have "\<dots> = x"
    using assms(1,2) by simp
  finally show ?thesis using assms(3,4) by simp
next
  case False
  then have "x * b \<le> 0"
    using assms(2) by (simp add: mult_le_0_iff)
  then have "x * b div y \<le> 0"
    using assms(1,2) by (simp add: div_nonpos_pos_le0)
  then show ?thesis using assms(4) by simp
qed

lemma thumbnail_size_fits:
  assumes "1 \<le> fst bx" and "1 \<le> snd bx"
  shows "fst (thumbnail_size sz bx) \<le> fst bx \<and> snd (thumbnail_size sz bx) \<le> snd bx"
proof -
  define x1 where "x1 = (if fst sz > fst bx then fst bx else fst sz)"
  define y1 where "y1 = (if fst sz > fst bx then max (snd sz * fst bx div fst sz) 1 else snd sz)"
  have x1: "x1 \<le> fst bx" by (simp add: x1_def)
  have r: "thumbnail_size sz bx =
             (if y1 > snd bx then (max (x1 * snd bx div y1) 1, snd bx) else (x1, y1))"
    by (simp add: thumbnail_size_def Let_def x1_def y1_def)
  show ?thesis
  proof (cases "y1 > snd bx")
    case True
    with r scaled_side_le [OF True assms(2) x1 assms(1)] show ?thesis by simp
  next
    case False
    with r x1 show ?thesis by simp
  qed
qed

lemma sample_thumbnail_fits:
  "\<forall>im bx. 1 \<le> fst bx \<and> 1 \<le> snd bx \<longrightarrow>
      fst (im_size sample_libs (thumbnail sample_libs im bx)) \<le> fst bx \<and>
      snd (im_size sample_libs (thumbnail sample_libs im bx)) \<le> snd bx"
  using thumbnail_size_fits by (simp add: sample_libs_def)

section \<open>Facts about insert\<close>

lemma fold_max_ge: "k \<le> fold max ks (k::int)"
  by (induction ks arbitrary: k) (auto intro: order_trans [OF max.cobounded2])

lemma fold_max_upper: "x \<in> set ks \<Longrightarrow> x \<le> fold max ks (k::int)"
proof (induction ks arbitrary: k)
  case Nil
  then show ?case by simp
next
  case (Cons y ys)
  show ?case
  proof (cases "x = y")
    case True
    have "y \<le> max y k" by simp
    also have "\<dots> \<le> fold max ys (max y k)" by (rule fold_max_ge)
    finally show ?thesis using True by simp
  next
    case False
    with Cons show ?thesis by simp
  qed
qed

lemma next_rowid_fresh: "next_rowid ids \<notin> set ids"
proof (cases ids)
  case Nil
  then show ?thesis by simp
next
  case (Cons k ks)
  have "x < next_rowid ids" if "x \<in> set ids" for x
  proof -
    from that Cons have "x \<le> fold max ks k"
      using fold_max_ge [of k ks] fold_max_upper [of x ks k] by auto
    with Cons show ?thesis by (simp add: next_rowid_def)
  qed
  then show ?thesis by blast
qed

lemma insert_colors_distinct:
  assumes "distinct (map color_id rows)"
  shows "distinct (map color_id (snd (insert_colors iid i rgb lab rows)))"
  using assms
proof (induction iid i rgb lab rows rule: insert_colors.induct)
  case (1 iid i lab rows)
  then show ?case by simp
next
  case (2 iid i red green blue rgb lab rows)
  show ?case
  proof (cases "i < length lab")
    case True
    obtain L a b where l: "lab ! i = (L, a, b)"
      by (cases "lab ! i") auto
    let ?row = "\<lparr> color_id = next_rowid (map color_id rows), c_image_id = iid,
                   c_rank = 1 + int i, c_L = L, c_a = a, c_b = b,
                   c_red = red, c_green = green, c_blue = blue \<rparr>"
    have dr: "distinct (map color_id (rows @ [?row]))"
      using "2.prems" next_rowid_fresh [of "map color_id rows"] by simp
    from "2.IH" [OF True l [symmetric] refl dr] True l show ?thesis by simp
  next
    case False
    with "2.prems" show ?thesis by simp
  qed
qed

lemma insert_db_Images:
  "Images (snd (snd (insert_db fname w h rgb lab d))) =
     (if fname \<in> set (map filename (Images d)) then Images d
      else Images d @ [\<lparr> image_id = next_rowid (map image_id (Images d)), usages = 0,
                          row_w = w, row_h = h, filename = fname \<rparr>])"
  by (simp add: insert_db_def Let_def split: prod.splits)

lemma insert_db_Colors:
  "Colors (snd (snd (insert_db fname w h rgb lab d))) =
     (if fname \<in> set (map filename (Images d)) then Colors d
      else snd (insert_colors (next_rowid (map image_id (Images d))) 0 rgb lab (Colors d)))"
  by (simp add: insert_db_def Let_def split: prod.splits)

lemma insert_db_constraints:
  assumes "constraints d"
  shows "constraints (snd (snd (insert_db fname w h rgb lab d)))"
proof (cases "fname \<in> set (map filename (Images d))")
  case True
  with assms show ?thesis by (simp add: insert_db_def)
next
  case False
  have "next_rowid (map image_id (Images d)) \<notin> set (map image_id (Images d))"
    by (rule next_rowid_fresh)
  with assms False show ?thesis
    unfolding constraints_def insert_db_Images insert_db_Colors
    by (simp add: insert_colors_distinct)
qed

lemma create_tables_constraints: "constraints (create_tables None)"
  by (simp add: create_tables_def constraints_def)

lemma insert_db_registered:
  "fname \<in> set (map filename (Images (snd (snd (insert_db fname w h rgb lab d)))))"
  unfolding insert_db_Images by simp

lemma one_row_per_filename:
  assumes "constraints d" and "fname \<in> set (map filename (Images d))"
  shows "length (filter (\<lambda>r. filename r = fname) (Images d)) = 1"
proof -
  from assms(2) obtain r where r: "r \<in> set (Images d)" and f: "filename r = fname"
    by auto
  from assms(1) have "distinct (map filename (Images d))"
    by (simp add: constraints_def)
  from filter_key_distinct [OF this r] f show ?thesis by simp
qed

section \<open>find_match where the name of the converter is bound\<close>

text \<open>
  With \<open>rgb2lab\<close> bound and a colour from line 185, the row returned is an eligible
  one and, where the order of sqlite is total and transitive, none has a smaller score.
\<close>

lemma find_match_bound_nearest:
  assumes "rgb2lab lb = Some conv"
    and "salient_colors lb tile 4 100 = (Inr (c # cs), tile')"
    and "conv c = (t_l, ta, tb)"
    and "eligible max_usages d \<noteq> []"
    and "\<forall>x y. r_le lb x y \<or> r_le lb y x"
    and "\<forall>x y z. r_le lb x y \<and> r_le lb y z \<longrightarrow> r_le lb x z"
  shows "\<exists>m. find_match lb tile d max_usages = (Inr m, tile', increment_usage d (m_image_id m)) \<and>
           m \<in> select_row lb ta tb ` set (eligible max_usages d) \<and>
           (\<forall>ci \<in> set (eligible max_usages d).
              r_le lb (m_ab_distance m) (m_ab_distance (select_row lb ta tb ci)))"
proof -
  from assms(4) obtain m ms where q: "query lb ta tb max_usages LIMIT d = m # ms"
    using query_Nil_iff [of lb ta tb max_usages d]
    by (cases "query lb ta tb max_usages LIMIT d") auto
  have "find_match lb tile d max_usages = (Inr m, tile', increment_usage d (m_image_id m))"
    using find_match_line185 [OF assms(1,2,3), of d max_usages] q by simp
  with query_Cons [OF q] query_head_least [OF assms(5,6) q] show ?thesis by blast
qed

text \<open>
  With \<open>rgb2lab\<close> bound and a colour from line 185, the call raises TypeError exactly
  when no entry is eligible, and a failing call leaves the pool as it was.
\<close>

lemma find_match_bound_exhausted:
  assumes "rgb2lab lb = Some conv"
    and "salient_colors lb tile 4 100 = (Inr (c # cs), tile')"
  shows "fst (find_match lb tile d max_usages) = Inl TypeError \<longleftrightarrow> eligible max_usages d = []"
proof -
  obtain t_l ta tb where lab: "conv c = (t_l, ta, tb)"
    by (cases "conv c") auto
  note fm = find_match_line185 [OF assms lab, of d max_usages]
  show ?thesis
  proof (cases "query lb ta tb max_usages LIMIT d")
    case Nil
    with fm query_Nil_iff [of lb ta tb max_usages d] show ?thesis by simp
  next
    case (Cons m ms)
    with fm query_Nil_iff [of lb ta tb max_usages d] show ?thesis by simp
  qed
qed

section \<open>Claims about find_match\<close>




text \<open>
  C2. Line 185 reads the converter through the name \<open>rgb2lab\<close>, which nothing in the
  module binds (line 46 reads \<open>cs.rgb2lab\<close>). In the namespace of the module as it is
  imported, \<open>find_match\<close> raises NameError on a pool with three eligible entries, before
  any entry is scored, and returns none; the tile and the pool are as before.
\<close>

theorem find_match_unbound_converter:
  "rgb2lab module_libs = None \<and>
   length (eligible 5 pool2) = 3 \<and>
   find_match module_libs sample_tile pool2 5 = (Inl NameError, sample_tile, pool2)"
  by (simp add: module_converter pool2_eligible module_find_match)

text \<open>
  C3. When \<open>find_match\<close> succeeds on a pool whose image ids are distinct (the primary
  key), the pool it leaves has the same Colors rows and the same Images rows in the same
  order, except that the usage count of the chosen image is the value read by the query
  plus one; the rows of every other image are unchanged, and any later query on that pool
  reports the incremented count for the chosen image.
\<close>

theorem find_match_increment:
  assumes "find_match lb tile d max_usages = (Inr m, tile', d')"
    and "distinct (map image_id (Images d))"
  shows "Colors d' = Colors d \<and>
         map image_id (Images d') = map image_id (Images d) \<and>
         (\<exists>r. image_rows d (m_image_id m) = [r] \<and> usages r = m_usages m \<and>
              image_rows d' (m_image_id m) = [r\<lparr> usages := m_usages m + 1 \<rparr>]) \<and>
         (\<forall>k. k \<noteq> m_image_id m \<longrightarrow> image_rows d' k = image_rows d k) \<and>
         (\<forall>lb' ta tb mx n m'. m' \<in> set (query lb' ta tb mx n d') \<and>
              m_image_id m' = m_image_id m \<longrightarrow>
              m_usages m' = m_usages m + 1)"
proof -
  from find_match_InrD [OF assms(1)] obtain ta tb ms
    where q: "query lb ta tb max_usages LIMIT d = m # ms"
      and d': "d' = increment_usage d (m_image_id m)"
    by blast
  from query_Cons [OF q] obtain col img
    where ci: "(col, img) \<in> set (eligible max_usages d)" and m: "m = select_row lb ta tb (col, img)"
    by auto
  from ci have img: "img \<in> set (Images d)" by (simp add: set_eligible)
  from m have mid: "m_image_id m = image_id img" and mus: "m_usages m = usages img"
    by (simp_all add: select_row_def)
  have rows: "image_rows d (m_image_id m) = [img]"
    unfolding image_rows_def mid using filter_key_distinct [OF assms(2) img] .
  have rows': "image_rows d' (m_image_id m) = [img\<lparr> usages := m_usages m + 1 \<rparr>]"
    unfolding d' image_rows_increment rows by (simp add: mid mus)
  have others: "\<forall>k. k \<noteq> m_image_id m \<longrightarrow> image_rows d' k = image_rows d k"
    unfolding d' by (simp add: image_rows_increment_other)
  have later: "\<forall>lb' ta tb mx n m'. m' \<in> set (query lb' ta tb mx n d') \<and>
              m_image_id m' = m_image_id m \<longrightarrow>
              m_usages m' = m_usages m + 1"
  proof (intro allI impI)
    fix lb' ta' tb' mx n m'
    assume a: "m' \<in> set (query lb' ta' tb' mx n d') \<and> m_image_id m' = m_image_id m"
    then obtain col' img' where ci': "(col', img') \<in> set (eligible mx d')"
      and m': "m' = select_row lb' ta' tb' (col', img')"
      using set_query_subset [of lb' ta' tb' mx n d'] by auto
    from ci' have "img' \<in> set (Images d')" by (simp add: set_eligible)
    moreover from m' a have "image_id img' = m_image_id m" by (simp add: select_row_def)
    ultimately have "img' \<in> set (image_rows d' (m_image_id m))"
      by (simp add: image_rows_def)
    with rows' have "img' = img\<lparr> usages := m_usages m + 1 \<rparr>" by simp
    with m' show "m_usages m' = m_usages m + 1" by (simp add: select_row_def)
  qed
  have "Colors d' = Colors d" unfolding d' by (rule Colors_increment)
  moreover have "map image_id (Images d') = map image_id (Images d)"
    unfolding d' by (rule image_ids_increment)
  moreover have "\<exists>r. image_rows d (m_image_id m) = [r] \<and> usages r = m_usages m \<and>
              image_rows d' (m_image_id m) = [r\<lparr> usages := m_usages m + 1 \<rparr>]"
    using rows rows' mus by (intro exI [of _ img]) simp
  ultimately show ?thesis using others later by (intro conjI)
qed

theorem find_match_increment_witness:
  "find_match sample_libs sample_tile pool2 5 =
     (Inr pale_match, sample_tile, increment_usage pool2 2) \<and>
   distinct (map image_id (Images pool2)) \<and>
   Colors (increment_usage pool2 2) = Colors pool2 \<and>
   image_rows (increment_usage pool2 2) 1 = image_rows pool2 1"
proof -
  have d: "distinct (map image_id (Images pool2))"
    by (simp add: pool2_def)
  have m: "m_image_id pale_match = 2"
    by (simp add: pale_match_def)
  from find_match_increment [OF pool2_find_match d]
  have "Colors (increment_usage pool2 2) = Colors pool2"
    and "\<forall>k. k \<noteq> m_image_id pale_match \<longrightarrow>
           image_rows (increment_usage pool2 2) k = image_rows pool2 k"
    by blast+
  then show ?thesis using pool2_find_match d m by simp
qed

text \<open>
  C4. In the namespace of the module as it is imported, \<open>find_match\<close> raises NameError
  whether an entry is eligible (the pool of one unused image) or none is (the same image
  above the cap), so the failure does not tell an exhausted pool, and \<open>photomosaic\<close>
  ends with NameError at the first tile. With the converter bound, a run that exhausts
  the pool at the seventh tile ends with the TypeError of the empty result; in both runs
  the pool stored afterwards is the one that \<open>reset_usage\<close> committed.
\<close>

theorem find_match_fails_unexhausted:
  "length (eligible 5 (pool1 0)) = 1 \<and>
   find_match module_libs sample_tile (pool1 0) 5 = (Inl NameError, sample_tile, pool1 0) \<and>
   eligible 5 (pool1 6) = [] \<and>
   find_match module_libs sample_tile (pool1 6) 5 = (Inl NameError, sample_tile, pool1 6) \<and>
   photomosaic module_libs ''strip.png'' (100, 100) (pool1 3) = (Inl NameError, pool1 0) \<and>
   photomosaic sample_libs ''strip.png'' (100, 100) (pool1 3) = (Inl TypeError, pool1 0)"
proof -
  have o: "image_open module_libs ''strip.png'' = Some strip_image"
    by (simp add: module_libs_def strip_open)
  have p: "partition_target module_libs strip_image (100, 100) =
             Inr [[sample_tile, sample_tile, sample_tile, sample_tile, sample_tile, sample_tile,
                   sample_tile]]"
    by (simp add: partition_target_def py_range_7 py_range_1 module_libs_def sample_libs_def
        strip_image_def sample_tile_def)
  have c1: "concat [[sample_tile, sample_tile, sample_tile, sample_tile, sample_tile,
                     sample_tile, sample_tile]] =
            [] @ sample_tile #
            [sample_tile, sample_tile, sample_tile, sample_tile, sample_tile, sample_tile]"
    by simp
  have r1: "match_row module_libs (100, 100) [] (seen (reset_usage (connect (pool1 3)))) =
              (Inr [], pool1 0)"
    by (simp add: pool1_reset)
  have a: "photomosaic module_libs ''strip.png'' (100, 100) (pool1 3) = (Inl NameError, pool1 0)"
    using photomosaic_error_at [OF o p c1 r1 module_find_match] by (simp add: pool1_reset)
  have c2: "concat [[sample_tile, sample_tile, sample_tile, sample_tile, sample_tile,
                     sample_tile, sample_tile]] =
            [sample_tile, sample_tile, sample_tile, sample_tile, sample_tile, sample_tile] @
            sample_tile # []"
    by simp
  have r2: "match_row sample_libs (100, 100)
              [sample_tile, sample_tile, sample_tile, sample_tile, sample_tile, sample_tile]
              (seen (reset_usage (connect (pool1 3)))) =
            (Inr [red_image, red_image, red_image, red_image, red_image, red_image], pool1 6)"
    by (simp only: pool1_reset strip_match_row)
  have f: "find_match sample_libs sample_tile (pool1 6) 5 = (Inl TypeError, sample_tile, pool1 6)"
    by (simp add: pool1_find_match)
  have b: "photomosaic sample_libs ''strip.png'' (100, 100) (pool1 3) = (Inl TypeError, pool1 0)"
    using photomosaic_error_at [OF strip_open strip_partition c2 r2 f] by (simp add: pool1_reset)
  from a b show ?thesis
    by (simp add: pool1_eligible module_find_match)
qed

section \<open>Claim about insert\<close>

text \<open>
  C6. On a pool that satisfies the constraints of \<open>create_tables\<close>, registering a file
  name that is already in Images raises nothing to the caller, prints the line that says
  the image is skipped and leaves the pool, Images and Colors, exactly as it was; the table
  holds exactly one row of that file name. Consequently, after any registration of a file
  name a second registration of it (whatever the other arguments) changes nothing, and
  the pool still holds exactly one row of that name and satisfies the constraints.
\<close>

theorem insert_duplicate:
  assumes "constraints d"
  shows "(fname \<in> set (map filename (Images d)) \<longrightarrow>
            insert_db fname w h rgb lab d = (None, [skip_message fname], d) \<and>
            length (filter (\<lambda>r. filename r = fname) (Images d)) = 1) \<and>
         insert_db fname w' h' rgb' lab' (snd (snd (insert_db fname w h rgb lab d))) =
           (None, [skip_message fname], snd (snd (insert_db fname w h rgb lab d))) \<and>
         length (filter (\<lambda>r. filename r = fname)
                   (Images (snd (snd (insert_db fname w h rgb lab d))))) = 1 \<and>
         constraints (snd (snd (insert_db fname w h rgb lab d)))"
proof -
  have dup: "insert_db fname w0 h0 rgb0 lab0 d0 = (None, [skip_message fname], d0)"
    if "fname \<in> set (map filename (Images d0))" for w0 h0 rgb0 lab0 d0
    using that by (simp add: insert_db_def skip_message_def)
  let ?d1 = "snd (snd (insert_db fname w h rgb lab d))"
  have c1: "constraints ?d1"
    using assms by (rule insert_db_constraints)
  have r1: "fname \<in> set (map filename (Images ?d1))"
    by (rule insert_db_registered)
  from dup [of d w h rgb lab] one_row_per_filename [OF assms, of fname]
    dup [OF r1, of w' h' rgb' lab'] one_row_per_filename [OF c1 r1] c1
  show ?thesis by (intro conjI impI)
qed

theorem insert_duplicate_witness:
  "constraints pool2 \<and> ''blue.jpg'' \<in> set (map filename (Images pool2)) \<and>
   insert_db ''blue.jpg'' 640 480 [(1, 2, 3)] [(4, 5, 6)] pool2 =
     (None, [''Image blue.jpg is already in the table. Skipping it.''], pool2) \<and>
   length (filter (\<lambda>r. filename r = ''blue.jpg'') (Images pool2)) = 1"
proof -
  have c: "constraints pool2"
    by (simp add: constraints_def pool2_def)
  have f: "''blue.jpg'' \<in> set (map filename (Images pool2))"
    by (simp add: pool2_def)
  from insert_duplicate [OF c, of "''blue.jpg''" 640 480 "[(1, 2, 3)]" "[(4, 5, 6)]"] f
  have "insert_db ''blue.jpg'' 640 480 [(1, 2, 3)] [(4, 5, 6)] pool2 =
          (None, [skip_message ''blue.jpg''], pool2) \<and>
        length (filter (\<lambda>r. filename r = ''blue.jpg'') (Images pool2)) = 1"
    by blast
  with c f show ?thesis by (simp add: skip_message_def)
qed

section \<open>Claims about the grid and the canvas\<close>

text \<open>
  C7. For a tile size with positive sides, \<open>partition_target\<close> returns a grid of
  \<open>height div tile_h\<close> rows, each of \<open>width div tile_w\<close> tiles (floor division); the
  tile in row \<open>y\<close> and column \<open>x\<close> is the crop of the box from
  \<open>(x * tile_w, y * tile_h)\<close> to \<open>((x + 1) * tile_w, (y + 1) * tile_h)\<close>. What is left
  over on the right and at the bottom is a strip narrower than one tile and belongs to no
  tile. A target of 310 by 200 with tiles of 100 by 100 gives 2 rows of 3 tiles.
\<close>

theorem partition_target_grid:
  assumes "0 < tile_w" and "0 < tile_h"
  shows "\<exists>tiles. partition_target lb img (tile_w, tile_h) = Inr tiles \<and>
           length tiles = nat (snd (im_size lb img) div tile_h) \<and>
           (\<forall>row \<in> set tiles. length row = nat (fst (im_size lb img) div tile_w)) \<and>
           (\<forall>y x. y < nat (snd (im_size lb img) div tile_h) \<and>
                  x < nat (fst (im_size lb img) div tile_w) \<longrightarrow>
                  tiles ! y ! x =
                    crop lb img (int x * tile_w, int y * tile_h,
                                 (int x + 1) * tile_w, (int y + 1) * tile_h)) \<and>
           fst (im_size lb img) div tile_w * tile_w \<le> fst (im_size lb img) \<and>
           fst (im_size lb img) - fst (im_size lb img) div tile_w * tile_w < tile_w \<and>
           snd (im_size lb img) div tile_h * tile_h \<le> snd (im_size lb img) \<and>
           snd (im_size lb img) - snd (im_size lb img) div tile_h * tile_h < tile_h \<and>
           (im_size lb img = (310, 200) \<and> tile_w = 100 \<and> tile_h = 100 \<longrightarrow>
              length tiles = 2 \<and> (\<forall>row \<in> set tiles. length row = 3))"
proof -
  let ?W = "fst (im_size lb img)" and ?H = "snd (im_size lb img)"
  let ?tiles = "map (\<lambda>y. map (\<lambda>x. crop lb img (x * tile_w, y * tile_h,
                                                   (x + 1) * tile_w, (y + 1) * tile_h))
                              (py_range (?W div tile_w)))
                    (py_range (?H div tile_h))"
  have p: "partition_target lb img (tile_w, tile_h) = Inr ?tiles"
    using assms by (simp add: partition_target_def)
  have rows: "length ?tiles = nat (?H div tile_h)"
    by (simp add: length_py_range)
  have cols: "\<forall>row \<in> set ?tiles. length row = nat (?W div tile_w)"
    by (auto simp: length_py_range)
  have at: "\<forall>y x. y < nat (?H div tile_h) \<and> x < nat (?W div tile_w) \<longrightarrow>
              ?tiles ! y ! x =
                crop lb img (int x * tile_w, int y * tile_h,
                             (int x + 1) * tile_w, (int y + 1) * tile_h)"
    by (simp add: length_py_range nth_py_range)
  have ex: "im_size lb img = (310, 200) \<and> tile_w = 100 \<and> tile_h = 100 \<longrightarrow>
              length ?tiles = 2 \<and> (\<forall>row \<in> set ?tiles. length row = 3)"
    by (auto simp: length_py_range)
  from p rows cols at ex floor_div_remainder [OF assms(1), of ?W]
    floor_div_remainder [OF assms(2), of ?H]
  show ?thesis by (intro exI [of _ ?tiles]) (intro conjI, simp_all)
qed

theorem partition_target_grid_witness:
  "(0::int) < 100 \<and>
   (\<exists>tiles. partition_target sample_libs
               \<lparr> s_mode = ''RGB'', s_size = (310, 200), s_colors = [(180, 20, 20)] \<rparr>
               (100, 100) = Inr tiles \<and>
            length tiles = 2 \<and> (\<forall>row \<in> set tiles. length row = 3) \<and>
            tiles ! 1 ! 2 = sample_tile)"
proof -
  have pos: "(0::int) < 100" by simp
  let ?img = "\<lparr> s_mode = ''RGB'', s_size = (310, 200), s_colors = [(180, 20, 20)] \<rparr>"
  from partition_target_grid [OF pos pos, of sample_libs ?img]
  obtain tiles where t: "partition_target sample_libs ?img (100, 100) = Inr tiles"
    and at: "\<forall>y x. y < nat (snd (im_size sample_libs ?img) div 100) \<and>
                  x < nat (fst (im_size sample_libs ?img) div 100) \<longrightarrow>
                  tiles ! y ! x =
                    crop sample_libs ?img (int x * 100, int y * 100,
                                 (int x + 1) * 100, (int y + 1) * 100)"
    and ex: "im_size sample_libs ?img = (310, 200) \<and> (100::int) = 100 \<and> (100::int) = 100 \<longrightarrow>
              length tiles = 2 \<and> (\<forall>row \<in> set tiles. length row = 3)"
    by blast
  from ex have dims: "length tiles = 2 \<and> (\<forall>row \<in> set tiles. length row = 3)"
    by (simp add: sample_libs_def)
  from at [rule_format, of 1 2] have "tiles ! 1 ! 2 = sample_tile"
    by (simp add: sample_libs_def sample_tile_def)
  with pos t dims show ?thesis by blast
qed

text \<open>
  C8, as stated, fails when the grid has no rows: \<open>tiles[0]\<close> raises IndexError and
  no canvas is made. \<open>partition_target\<close> produces that grid for a target lower than one
  tile.
\<close>

theorem assemble_mosaic_empty_grid:
  "partition_target sample_libs
     \<lparr> s_mode = ''RGB'', s_size = (310, 50), s_colors = [(180, 20, 20)] \<rparr> (100, 100) = Inr [] \<and>
   assemble_mosaic ([] :: sample_image list list) (100, 100) = Inl IndexError"
  by (simp add: partition_target_def py_range_def sample_libs_def assemble_mosaic_def)

text \<open>
  C8, amended. For a grid with at least one row, \<open>assemble_mosaic\<close> returns an RGB canvas
  whose size is the length of the first row times \<open>tile_w\<close> by the number of rows times
  \<open>tile_h\<close>. Every tile is pasted exactly once, the tile in row \<open>y\<close> and column \<open>x\<close>
  at the offset \<open>(x * tile_w, y * tile_h)\<close>, and nothing else is pasted.
\<close>

theorem assemble_mosaic_canvas:
  assumes "tiles \<noteq> []"
  shows "\<exists>mo. assemble_mosaic tiles (tile_w, tile_h) = Inr mo \<and>
           mo_mode mo = ''RGB'' \<and>
           mo_size mo = (int (length (hd tiles)) * tile_w, int (length tiles) * tile_h) \<and>
           length (mo_pastes mo) = sum_list (map length tiles) \<and>
           (\<forall>y x. y < length tiles \<and> x < length (tiles ! y) \<longrightarrow>
                  (tiles ! y ! x, int x * tile_w, int y * tile_h) \<in> set (mo_pastes mo)) \<and>
           (\<forall>p \<in> set (mo_pastes mo).
              \<exists>y x. y < length tiles \<and> x < length (tiles ! y) \<and>
                    p = (tiles ! y ! x, int x * tile_w, int y * tile_h))"
proof -
  let ?paste_row = "\<lambda>(y, row). map (\<lambda>(x, tile). (tile, x * tile_w, y * tile_h)) (enumerate_py row)"
  let ?pastes = "concat (map ?paste_row (enumerate_py tiles))"
  let ?mo = "\<lparr> mo_mode = ''RGB'',
               mo_size = (int (length (hd tiles)) * tile_w, int (length tiles) * tile_h),
               mo_pastes = ?pastes \<rparr>"
  have a: "assemble_mosaic tiles (tile_w, tile_h) = Inr ?mo"
    using assms by (cases tiles) (simp_all add: assemble_mosaic_def)
  have "map length (map ?paste_row (enumerate_py tiles)) = map (length \<circ> snd) (enumerate_py tiles)"
    by (auto simp: enumerate_py_def)
  also have "\<dots> = map length (map snd (enumerate_py tiles))"
    by simp
  also have "\<dots> = map length tiles"
    by (simp only: map_snd_enumerate_py)
  finally have len: "length ?pastes = sum_list (map length tiles)"
    by (simp only: length_concat)
  have set_eq: "set ?pastes =
      (\<Union>y \<in> {0..<length tiles}.
         (\<lambda>x. (tiles ! y ! x, int x * tile_w, int y * tile_h)) ` {0..<length (tiles ! y)})"
    by (simp add: enumerate_py_conv comp_def)
  have inc: "\<forall>y x. y < length tiles \<and> x < length (tiles ! y) \<longrightarrow>
                  (tiles ! y ! x, int x * tile_w, int y * tile_h) \<in> set ?pastes"
  proof (intro allI impI)
    fix y x
    assume "y < length tiles \<and> x < length (tiles ! y)"
    then have "y \<in> {0..<length tiles}" and "x \<in> {0..<length (tiles ! y)}"
      by simp_all
    then show "(tiles ! y ! x, int x * tile_w, int y * tile_h) \<in> set ?pastes"
      unfolding set_eq by blast
  qed
  have only: "\<forall>p \<in> set ?pastes.
              \<exists>y x. y < length tiles \<and> x < length (tiles ! y) \<and>
                    p = (tiles ! y ! x, int x * tile_w, int y * tile_h)"
  proof
    fix p
    assume "p \<in> set ?pastes"
    then obtain y x where "y \<in> {0..<length tiles}" and "x \<in> {0..<length (tiles ! y)}"
      and "p = (tiles ! y ! x, int x * tile_w, int y * tile_h)"
      unfolding set_eq by blast
    then show "\<exists>y x. y < length tiles \<and> x < length (tiles ! y) \<and>
                    p = (tiles ! y ! x, int x * tile_w, int y * tile_h)"
      by (intro exI [of _ y] exI [of _ x]) simp
  qed
  from a len inc only show ?thesis
    by (intro exI [of _ ?mo]) simp
qed

theorem assemble_mosaic_canvas_witness:
  "[[red_image, red_image, red_image], [red_image, red_image, red_image]] \<noteq> [] \<and>
   (\<exists>mo. assemble_mosaic [[red_image, red_image, red_image], [red_image, red_image, red_image]]
            (100, 100) = Inr mo \<and>
          mo_size mo = (300, 200) \<and>
          length (mo_pastes mo) = 6 \<and>
          (red_image, 200, 100) \<in> set (mo_pastes mo))"
proof -
  let ?tiles = "[[red_image, red_image, red_image], [red_image, red_image, red_image]]"
  have ne: "?tiles \<noteq> []" by simp
  from assemble_mosaic_canvas [OF ne, of 100 100]
  obtain mo where a: "assemble_mosaic ?tiles (100, 100) = Inr mo"
    and sz: "mo_size mo = (int (length (hd ?tiles)) * 100, int (length ?tiles) * 100)"
    and len: "length (mo_pastes mo) = sum_list (map length ?tiles)"
    and inc: "\<forall>y x. y < length ?tiles \<and> x < length (?tiles ! y) \<longrightarrow>
                  (?tiles ! y ! x, int x * 100, int y * 100) \<in> set (mo_pastes mo)"
    by blast
  from sz have "mo_size mo = (300, 200)" by simp
  moreover from len have "length (mo_pastes mo) = 6" by simp
  moreover from inc [rule_format, of 1 2] have "(red_image, 200, 100) \<in> set (mo_pastes mo)"
    by simp
  ultimately show ?thesis using ne a by blast
qed

section \<open>Claims about crop_to_fit and salient_colors\<close>

text \<open>
  C9. \<open>crop_to_fit\<close> returns no image when the integer aspect ratio of the image
  exceeds that of the tile: the branch for that case reads the unbound name
  \<open>crop_width\<close> (NameError at 300 by 100 for a tile of 100 by 100). For a tile higher
  than wide the integer aspect ratio of the tile is 0 and the other branch divides by it
  (ZeroDivisionError at 100 by 300 for a tile of 100 by 200). Where an image is returned,
  the box need not lie in the image: at 640 by 480 for a tile of 100 by 100 both integer
  ratios are 1 and the box runs from row -80 to row 560.
\<close>

theorem crop_to_fit_raises:
  "crop_to_fit sample_libs wide_image (100, 100) = Inl NameError \<and>
   crop_to_fit sample_libs tall_image (100, 200) = Inl ZeroDivisionError \<and>
   crop_to_fit sample_libs blue_image (100, 100) =
     Inr (resize sample_libs (crop sample_libs blue_image (0, -80, 640, 560)) (100, 100))"
  by (simp add: crop_to_fit_def sample_libs_def wide_image_def tall_image_def blue_image_def)

text \<open>
  C10, as stated, fails for an image that is not RGB: the assertion raises before
  \<open>thumbnail\<close> is called and the image keeps its size, here 500 by 500 against a bound
  of 100. It fails for the size 0 as well: the thumbnail of a 700 by 100 image is then 1
  by 0, with a longer side above 0.
\<close>

theorem salient_colors_non_rgb:
  "salient_colors sample_libs grey_image 4 100 = (Inl AssertionError, grey_image) \<and>
   \<not> max (fst (im_size sample_libs (snd (salient_colors sample_libs grey_image 4 100))))
          (snd (im_size sample_libs (snd (salient_colors sample_libs grey_image 4 100)))) \<le> 100 \<and>
   im_size sample_libs (snd (salient_colors sample_libs strip_image 4 0)) = (1, 0) \<and>
   \<not> max (fst (im_size sample_libs (snd (salient_colors sample_libs strip_image 4 0))))
          (snd (im_size sample_libs (snd (salient_colors sample_libs strip_image 4 0)))) \<le> 0"
  by (simp add: salient_colors_def sample_libs_def grey_image_def strip_image_def
      thumbnail_size_def)

text \<open>
  C10, amended. With the image objects of PIL 1.1, for an image that passes the RGB
  assertion and a size of at least 1: the image object after \<open>salient_colors\<close>,
  whether the clustering succeeds or raises, has the size that
  \<open>thumbnail((size, size))\<close> computes from the size it had, both sides are at most
  \<open>size\<close>, and the size has changed if a side was larger than \<open>size\<close>. It is the
  object of the caller: when the name \<open>rgb2lab\<close> is bound, so that \<open>find_match\<close>
  reaches \<open>salient_colors\<close>, the tile object after \<open>find_match\<close> has both sides at
  most 100, and a changed size if a side was larger than 100.
\<close>

theorem salient_colors_shrinks:
  assumes "pi_mode img = ''RGB''" and "1 \<le> sz"
  shows "pi_size (snd (salient_colors (with_pil resample lb) img clusters sz)) =
           thumbnail_size (pi_size img) (sz, sz) \<and>
         fst (pi_size (snd (salient_colors (with_pil resample lb) img clusters sz))) \<le> sz \<and>
         snd (pi_size (snd (salient_colors (with_pil resample lb) img clusters sz))) \<le> sz \<and>
         (sz < fst (pi_size img) \<or> sz < snd (pi_size img) \<longrightarrow>
            pi_size (snd (salient_colors (with_pil resample lb) img clusters sz)) \<noteq> pi_size img) \<and>
         (rgb2lab lb \<noteq> None \<longrightarrow>
            fst (pi_size (fst (snd (find_match (with_pil resample lb) img d max_usages)))) \<le> 100 \<and>
            snd (pi_size (fst (snd (find_match (with_pil resample lb) img d max_usages)))) \<le> 100 \<and>
            (100 < fst (pi_size img) \<or> 100 < snd (pi_size img) \<longrightarrow>
               pi_size (fst (snd (find_match (with_pil resample lb) img d max_usages))) \<noteq>
               pi_size img))"
proof -
  let ?lb = "with_pil resample lb"
  have th: "pi_size (pil_thumbnail resample img (n, n)) = thumbnail_size (pi_size img) (n, n)"
    for n
    by (simp add: pil_thumbnail_def Let_def)
  have s: "snd (salient_colors ?lb img k n) = pil_thumbnail resample img (n, n)" for k n
    using assms(1) by (simp add: salient_colors_def with_pil_def Let_def split: option.splits)
  have fits: "fst (thumbnail_size (pi_size img) (n, n)) \<le> n \<and>
              snd (thumbnail_size (pi_size img) (n, n)) \<le> n" if "1 \<le> n" for n
    using thumbnail_size_fits [of "(n, n)" "pi_size img"] that by simp
  have changed: "thumbnail_size (pi_size img) (n, n) \<noteq> pi_size img"
    if "1 \<le> n" and "n < fst (pi_size img) \<or> n < snd (pi_size img)" for n
    using fits [OF that(1)] that(2) by auto
  have f: "fst (snd (find_match ?lb img d max_usages)) = pil_thumbnail resample img (100, 100)"
    if "rgb2lab lb \<noteq> None"
  proof (cases rule: find_match_cases [of ?lb img d max_usages])
    case unbound
    with that show ?thesis by (simp add: with_pil_def)
  next
    case (assert conv e tile')
    with s [of 4 100] show ?thesis by simp
  next
    case (index conv tile')
    with s [of 4 100] show ?thesis by simp
  next
    case (none conv c cs tile' t_l ta tb)
    with s [of 4 100] show ?thesis by simp
  next
    case (found conv c cs tile' t_l ta tb m ms)
    with s [of 4 100] show ?thesis by simp
  qed
  have a: "pi_size (snd (salient_colors ?lb img clusters sz)) =
             thumbnail_size (pi_size img) (sz, sz)"
    by (simp add: s th)
  have b: "rgb2lab lb \<noteq> None \<longrightarrow>
             pi_size (fst (snd (find_match ?lb img d max_usages))) =
             thumbnail_size (pi_size img) (100, 100)"
    using f by (simp add: th)
  from a b fits [OF assms(2)] fits [of 100] changed [OF assms(2)] changed [of 100]
  show ?thesis by auto
qed

theorem salient_colors_shrinks_witness:
  "pi_mode pil_strip = ''RGB'' \<and> (1::int) \<le> 100 \<and>
   pi_size (snd (salient_colors pil_sample pil_strip 4 100)) = (100, 14) \<and>
   fst (pi_size (fst (snd (find_match pil_sample pil_strip (pool1 0) 5)))) \<le> 100"
proof -
  have m: "pi_mode pil_strip = ''RGB''"
    by (simp add: pil_strip_def)
  have one: "(1::int) \<le> 100" by simp
  have w: "pil_sample = with_pil (\<lambda>im sz. ()) pil_sample"
    by (simp add: pil_sample_def with_pil_def)
  have b: "rgb2lab pil_sample \<noteq> None"
    by (simp add: pil_sample_def with_pil_def)
  note r = salient_colors_shrinks [OF m one, of "\<lambda>im sz. ()" pil_sample 4 "pool1 0" 5]
  from r have "pi_size (snd (salient_colors (with_pil (\<lambda>im sz. ()) pil_sample) pil_strip 4 100)) =
                 thumbnail_size (pi_size pil_strip) (100, 100)"
    by blast
  then have s: "pi_size (snd (salient_colors pil_sample pil_strip 4 100)) = (100, 14)"
    using w by (simp add: pil_strip_def thumbnail_size_def)
  from r b
  have "fst (pi_size (fst (snd (find_match (with_pil (\<lambda>im sz. ()) pil_sample) pil_strip
                                  (pool1 0) 5)))) \<le> 100"
    by blast
  then have "fst (pi_size (fst (snd (find_match pil_sample pil_strip (pool1 0) 5)))) \<le> 100"
    using w by simp
  with m one s show ?thesis by (intro conjI)
qed

end
